theory Spec2Isabelle
  imports
    Main
    "HOL-Library.Char_ord"
    "HOL-Library.List_Lexorder"
    "HOL-Library.AList"
    "HOL-Library.Multiset"
begin

section \<open>Path strings\<close>

text \<open>
  The module \<^verbatim>\<open>facefusion/filesystem.py\<close> works on Python \<^verbatim>\<open>str\<close> paths
  through \<^verbatim>\<open>os.path\<close>, taken here to be \<^verbatim>\<open>posixpath\<close> (separator \<^verbatim>\<open>/\<close>).
  A path is a \<^typ>\<open>string\<close>; the functions of \<^verbatim>\<open>posixpath\<close> and \<^verbatim>\<open>str\<close>
  that the module calls are written out as the library computes them.
\<close>

text \<open>\<^verbatim>\<open>s.rfind(c)\<close> for a single character: the last index of \<open>c\<close>, or \<open>-1\<close>.\<close>

fun rfind :: "char \<Rightarrow> string \<Rightarrow> int" where
  "rfind c [] = - 1"
| "rfind c (x # xs) =
     (let r = rfind c xs in
      if 0 \<le> r then r + 1 else if x = c then 0 else - 1)"

text \<open>
  \<^verbatim>\<open>genericpath._splitext(p, '/', None, '.')\<close>. The loop skips the leading dots of
  the last component: \<open>filenameIndex\<close> runs from just after the last separator
  up to the last dot, and the split happens at the last dot as soon as a
  character other than a dot is met.
\<close>

function splitext_loop :: "string \<Rightarrow> nat \<Rightarrow> nat \<Rightarrow> string \<times> string" where
  "splitext_loop p dotIndex filenameIndex =
     (if filenameIndex < dotIndex then
        (if take 1 (drop filenameIndex p) \<noteq> ''.'' then (take dotIndex p, drop dotIndex p)
         else splitext_loop p dotIndex (filenameIndex + 1))
      else (p, []))"
  by pat_completeness auto
termination
  by (relation "measure (\<lambda>(p, dotIndex, filenameIndex). dotIndex - filenameIndex)") auto

declare splitext_loop.simps [simp del]

definition splitext :: "string \<Rightarrow> string \<times> string" where
  "splitext p =
     (let sepIndex = rfind CHR ''/'' p;
          dotIndex = rfind CHR ''.'' p
      in if sepIndex < dotIndex then splitext_loop p (nat dotIndex) (nat (sepIndex + 1))
         else (p, []))"

text \<open>\<^verbatim>\<open>posixpath.basename\<close>: everything after the last separator.\<close>

definition basename :: "string \<Rightarrow> string" where
  "basename p = drop (nat (rfind CHR ''/'' p + 1)) p"

text \<open>\<^verbatim>\<open>s.rstrip('/')\<close> and \<^verbatim>\<open>s.lstrip('.')\<close>.\<close>

definition rstrip :: "char \<Rightarrow> string \<Rightarrow> string" where
  "rstrip c s = rev (dropWhile (\<lambda>x. x = c) (rev s))"

definition lstrip :: "char \<Rightarrow> string \<Rightarrow> string" where
  "lstrip c s = dropWhile (\<lambda>x. x = c) s"

text \<open>
  \<^verbatim>\<open>posixpath.dirname\<close>: the head up to and including the last separator, with
  its trailing separators removed unless it consists of separators only.
\<close>

definition dirname :: "string \<Rightarrow> string" where
  "dirname p =
     (let head = take (nat (rfind CHR ''/'' p + 1)) p
      in if head \<noteq> [] \<and> head \<noteq> replicate (length head) CHR ''/''
         then rstrip CHR ''/'' head else head)"

text \<open>\<^verbatim>\<open>s.startswith(prefix)\<close> and \<^verbatim>\<open>s.endswith(suffix)\<close>.\<close>

definition startswith :: "string \<Rightarrow> string \<Rightarrow> bool" where
  "startswith s pre = (take (length pre) s = pre)"

definition endswith :: "string \<Rightarrow> string \<Rightarrow> bool" where
  "endswith s suf = (length suf \<le> length s \<and> drop (length s - length suf) s = suf)"

text \<open>\<^verbatim>\<open>posixpath.join(a, b)\<close> with one further component.\<close>

definition os_path_join :: "string \<Rightarrow> string \<Rightarrow> string" where
  "os_path_join a b =
     (if startswith b ''/'' then b
      else if a = [] \<or> endswith a ''/'' then a @ b
      else a @ ''/'' @ b)"

text \<open>
  \<^verbatim>\<open>s.lower()\<close>. Paths are byte strings here, and only the ASCII letters
  \<^verbatim>\<open>A\<close>..\<^verbatim>\<open>Z\<close> have a lower-case form; every other byte stays as it is.
\<close>

definition lower_char :: "char \<Rightarrow> char" where
  "lower_char c =
     (if CHR ''A'' \<le> c \<and> c \<le> CHR ''Z'' then char_of (of_char c + (32 :: nat)) else c)"

definition lower :: "string \<Rightarrow> string" where
  "lower s = map lower_char s"


section \<open>Metadata extraction\<close>

text \<open>
  \<^verbatim>\<open>
  def get_file_name(file_path):
      name, _ = os.path.splitext(os.path.basename(file_path))
      return name if name else None

  def get_file_extension(file_path):
      _, extension = os.path.splitext(file_path)
      return extension.lower() if extension else None

  def get_file_format(file_path):
      extension = get_file_extension(file_path)
      if not extension:
          return None
      return { '.jpg': 'jpeg', '.tif': 'tiff' }.get(extension, extension.lstrip('.'))
  \<close>
  \<^verbatim>\<open>None\<close> is \<^const>\<open>None\<close>; the dictionary of renames is a map built from its two items.
\<close>

definition get_file_name :: "string \<Rightarrow> string option" where
  "get_file_name file_path =
     (let name = fst (splitext (basename file_path))
      in if name \<noteq> [] then Some name else None)"

definition get_file_extension :: "string \<Rightarrow> string option" where
  "get_file_extension file_path =
     (let extension = snd (splitext file_path)
      in if extension \<noteq> [] then Some (lower extension) else None)"

definition format_renames :: "string \<rightharpoonup> string" where
  "format_renames = map_of [(''.jpg'', ''jpeg''), (''.tif'', ''tiff'')]"

definition get_file_format :: "string \<Rightarrow> string option" where
  "get_file_format file_path =
     (case get_file_extension file_path of
        None \<Rightarrow> None
      | Some extension \<Rightarrow>
          if extension = [] then None
          else Some (case format_renames extension of
                       Some v \<Rightarrow> v
                     | None \<Rightarrow> lstrip CHR ''.'' extension))"


section \<open>Exceptions, effects and the retry wrapper\<close>

text \<open>
  A Python call either returns a value or raises, and it may change the world
  around it. A computation is therefore a function from a state to a result
  and a new state, the result being \<open>Inl\<close> of the exception raised or \<open>Inr\<close>
  of the value returned. Only classes derived from \<^verbatim>\<open>Exception\<close> occur:
  \<^verbatim>\<open>TypeError\<close> (a call with the wrong arguments), \<^verbatim>\<open>NameError\<close> (an unbound
  name) and \<^verbatim>\<open>OSError\<close> (any failure reported by the operating system).
\<close>

datatype exn = TypeError | NameError string | OSError

datatype pyval = PNone | PBool bool | PStr string

type_synonym ('s, 'a) io = "'s \<Rightarrow> (exn + 'a) \<times> 's"

definition return_io :: "'a \<Rightarrow> ('s, 'a) io" where
  "return_io v s = (Inr v, s)"

definition raise_io :: "exn \<Rightarrow> ('s, 'a) io" where
  "raise_io e s = (Inl e, s)"

definition bind_io :: "('s, 'a) io \<Rightarrow> ('a \<Rightarrow> ('s, 'b) io) \<Rightarrow> ('s, 'b) io" where
  "bind_io m f s = (case m s of (Inl e, s') \<Rightarrow> (Inl e, s') | (Inr v, s') \<Rightarrow> f v s')"

text \<open>
  The state of a run: the environment the wrapped operations act on (for this
  module, the file system), the debug messages handed to \<^verbatim>\<open>logger.debug\<close> and
  the delays passed to \<^verbatim>\<open>time.sleep\<close>. A log entry keeps what the message
  reports: the attempt number \<^verbatim>\<open>attempt+1\<close>, \<^verbatim>\<open>retries\<close>, and for a failed attempt
  the exception. The delay is a \<^typ>\<open>nat\<close>: \<^verbatim>\<open>time.sleep\<close> accepts no negative
  length.
\<close>

datatype log_entry = Success_on nat int | Error_on nat int exn

record 'e rt =
  env :: 'e
  log :: "log_entry list"
  slept :: "nat list"

definition logger_debug :: "log_entry \<Rightarrow> 'e rt \<Rightarrow> 'e rt" where
  "logger_debug m w = w\<lparr>log := log w @ [m]\<rparr>"

definition time_sleep :: "nat \<Rightarrow> 'e rt \<Rightarrow> 'e rt" where
  "time_sleep d w = w\<lparr>slept := slept w @ [d]\<rparr>"

text \<open>
  A callable takes positional arguments and keyword arguments and acts on the
  environment: \<^verbatim>\<open>func(*args, **kwargs)\<close>.
\<close>

type_synonym ('e, 'a) func = "pyval list \<Rightarrow> (string \<times> pyval) list \<Rightarrow> ('e, 'a) io"

text \<open>
  \<^verbatim>\<open>
  def _error_handler(func, *args, retries=3, delay=1, **kwargs):
      for attempt in range(retries):
          try:
              result = func(*args, **kwargs)
              if attempt > 0:
                  logger.debug(f"Success on attempt {attempt+1}/{retries} ...", __name__)
              return result
          except Exception as e:
              logger.debug(f"Error on attempt {attempt+1}/{retries} ...: {str(e)}", __name__)
              if attempt < retries - 1:
                  time.sleep(delay)
              else:
                  raise
  \<close>
  The loop runs over \<^verbatim>\<open>range(retries)\<close>, which is empty when \<^verbatim>\<open>retries\<close> is not
  positive; \<open>k\<close> counts the iterations that are left. When the range is
  exhausted the function falls off its end and returns \<^verbatim>\<open>None\<close>, which is the
  result \<open>Inr None\<close>; a value returned by \<^verbatim>\<open>func\<close> is \<open>Inr (Some result)\<close>.
\<close>

fun error_handler_loop ::
  "('e, 'a) func \<Rightarrow> pyval list \<Rightarrow> (string \<times> pyval) list \<Rightarrow> int \<Rightarrow> nat \<Rightarrow>
   nat \<Rightarrow> nat \<Rightarrow> ('e rt, 'a option) io" where
  "error_handler_loop func args kwargs retries delay 0 attempt w = (Inr None, w)"
| "error_handler_loop func args kwargs retries delay (Suc k) attempt w =
     (case func args kwargs (env w) of
        (Inr result, e') \<Rightarrow>
          (Inr (Some result),
           if 0 < attempt then logger_debug (Success_on (attempt + 1) retries) (w\<lparr>env := e'\<rparr>)
           else w\<lparr>env := e'\<rparr>)
      | (Inl e, e') \<Rightarrow>
          (let w1 = logger_debug (Error_on (attempt + 1) retries e) (w\<lparr>env := e'\<rparr>)
           in if int attempt < retries - 1
              then error_handler_loop func args kwargs retries delay k (attempt + 1)
                     (time_sleep delay w1)
              else (Inl e, w1)))"

definition error_handler ::
  "('e, 'a) func \<Rightarrow> pyval list \<Rightarrow> (string \<times> pyval) list \<Rightarrow> int \<Rightarrow> nat \<Rightarrow>
   ('e rt, 'a option) io" where
  "error_handler func args kwargs retries delay w =
     error_handler_loop func args kwargs retries delay (nat retries) 0 w"

text \<open>The defaults of the keyword-only parameters \<^verbatim>\<open>retries=3\<close> and \<^verbatim>\<open>delay=1\<close>.\<close>

definition default_retries :: int where
  "default_retries = 3"

definition default_delay :: nat where
  "default_delay = 1"

text \<open>
  To observe the invocations the wrapper makes, an operation can be run with a
  trace beside its environment: every invocation appends its outcome.
\<close>

definition traced :: "('e, 'a) func \<Rightarrow> ('e \<times> (exn + 'a) list, 'a) func" where
  "traced func args kwargs et =
     (case func args kwargs (fst et) of (r, e') \<Rightarrow> (r, (e', snd et @ [r])))"

text \<open>
  Two sample operations on a counter: one fails on its first two invocations
  and then returns, the other fails on every invocation.
\<close>

definition flaky :: "(nat, string) func" where
  "flaky args kwargs n = (if n < 2 then (Inl OSError, n + 1) else (Inr ''ok'', n + 1))"

definition always_fails :: "(nat, string) func" where
  "always_fails args kwargs n = (Inl OSError, n + 1)"

text \<open>\<^verbatim>\<open>any(map(f, xs))\<close>, \<^verbatim>\<open>all(map(f, xs))\<close> and \<^verbatim>\<open>[p for p in xs if f(p)]\<close>.\<close>

fun any_map :: "('x \<Rightarrow> ('s, bool) io) \<Rightarrow> 'x list \<Rightarrow> ('s, bool) io" where
  "any_map f [] = return_io False"
| "any_map f (x # xs) = bind_io (f x) (\<lambda>b. if b then return_io True else any_map f xs)"

fun all_map :: "('x \<Rightarrow> ('s, bool) io) \<Rightarrow> 'x list \<Rightarrow> ('s, bool) io" where
  "all_map f [] = return_io True"
| "all_map f (x # xs) = bind_io (f x) (\<lambda>b. if b then all_map f xs else return_io False)"

fun filter_map :: "('x \<Rightarrow> ('s, bool) io) \<Rightarrow> 'x list \<Rightarrow> ('s, 'x list) io" where
  "filter_map f [] = return_io []"
| "filter_map f (x # xs) =
     bind_io (f x) (\<lambda>b. bind_io (filter_map f xs) (\<lambda>r. return_io (if b then x # r else r)))"

text \<open>
  Reading a name: the value bound in the scope, or \<^verbatim>\<open>NameError\<close> when the name is
  bound neither locally nor in the module.
\<close>

definition load_name :: "(string \<times> 'v) list \<Rightarrow> string \<Rightarrow> ('s, 'v) io" where
  "load_name scope name =
     (case map_of scope name of Some v \<Rightarrow> return_io v | None \<Rightarrow> raise_io (NameError name))"


section \<open>The file system\<close>

text \<open>
  The operating system is the environment of the module. It is modelled as a
  tree without symbolic links and without permissions: a node is a regular
  file or a directory listing its entries by name, and a process has a current
  directory. A path of the tree is the list of names leading from the root to
  a node.
\<close>

datatype node = File | Dir "(string \<times> node) list"

record fsys =
  root :: node
  cwd :: "string list"

fun lookup :: "node \<Rightarrow> string list \<Rightarrow> node option" where
  "lookup n [] = Some n"
| "lookup File (c # cs) = None"
| "lookup (Dir es) (c # cs) = (case map_of es c of None \<Rightarrow> None | Some n \<Rightarrow> lookup n cs)"

definition is_dir_node :: "node option \<Rightarrow> bool" where
  "is_dir_node n = (case n of Some (Dir es) \<Rightarrow> True | _ \<Rightarrow> False)"

text \<open>The components of a path string: the pieces between separators.\<close>

fun components :: "string \<Rightarrow> string list" where
  "components [] = [[]]"
| "components (c # cs) =
     (if c = CHR ''/'' then [] # components cs
      else (case components cs of [] \<Rightarrow> [[c]] | x # xs \<Rightarrow> (c # x) # xs))"

text \<open>
  Path resolution walks the components from a starting directory. Every step
  needs the place reached so far to be a directory; an empty component and
  \<^verbatim>\<open>.\<close> stay there, \<^verbatim>\<open>..\<close> goes to the parent (the root is its own parent), and a
  name goes to the entry of that name, which has to exist.
\<close>

fun walk :: "node \<Rightarrow> string list \<Rightarrow> string list \<Rightarrow> string list option" where
  "walk r cur [] = Some cur"
| "walk r cur (c # cs) =
     (if is_dir_node (lookup r cur) then
        (if c = [] \<or> c = ''.'' then walk r cur cs
         else if c = ''..'' then walk r (butlast cur) cs
         else (case lookup r (cur @ [c]) of
                 None \<Rightarrow> None
               | Some n \<Rightarrow> walk r (cur @ [c]) cs))
      else None)"

definition start_dir :: "fsys \<Rightarrow> string \<Rightarrow> string list" where
  "start_dir fs p = (if startswith p ''/'' then [] else cwd fs)"

definition resolve :: "fsys \<Rightarrow> string \<Rightarrow> string list option" where
  "resolve fs p = (if p = [] then None else walk (root fs) (start_dir fs p) (components p))"

text \<open>What \<^verbatim>\<open>stat\<close> finds at a path: nothing, a file or a directory.\<close>

definition stat :: "fsys \<Rightarrow> string \<Rightarrow> node option" where
  "stat fs p = (case resolve fs p of None \<Rightarrow> None | Some a \<Rightarrow> lookup (root fs) a)"


fun remove_at :: "node \<Rightarrow> string list \<Rightarrow> node" where
  "remove_at n [] = n"
| "remove_at File (c # cs) = File"
| "remove_at (Dir es) [c] = Dir (AList.delete c es)"
| "remove_at (Dir es) (c # c' # cs) =
     (case map_of es c of
        None \<Rightarrow> Dir es
      | Some n \<Rightarrow> Dir (AList.update c (remove_at n (c' # cs)) es))"


text \<open>
  The primitives the module calls. Each takes the positional and keyword
  arguments of the call; a call the function's signature does not accept raises
  \<^verbatim>\<open>TypeError\<close>.

  \<^verbatim>\<open>os.path.isfile(path)\<close> and \<^verbatim>\<open>os.path.isdir(path)\<close> never raise on a string:
  a path that cannot be resolved is neither.
\<close>

definition os_path_isfile :: "(fsys, bool) func" where
  "os_path_isfile args kwargs fs =
     (case (args, kwargs) of
        ([PStr p], []) \<Rightarrow> (Inr (stat fs p = Some File), fs)
      | _ \<Rightarrow> (Inl TypeError, fs))"

definition os_path_isdir :: "(fsys, bool) func" where
  "os_path_isdir args kwargs fs =
     (case (args, kwargs) of
        ([PStr p], []) \<Rightarrow> (Inr (is_dir_node (stat fs p)), fs)
      | _ \<Rightarrow> (Inl TypeError, fs))"

text \<open>\<^verbatim>\<open>os.listdir(path)\<close>: the names in a directory, in the order the directory holds them.\<close>

definition os_listdir :: "(fsys, string list) func" where
  "os_listdir args kwargs fs =
     (case (args, kwargs) of
        ([PStr p], []) \<Rightarrow>
          (case stat fs p of
             Some (Dir es) \<Rightarrow> (Inr (map fst es), fs)
           | _ \<Rightarrow> (Inl OSError, fs))
      | _ \<Rightarrow> (Inl TypeError, fs))"

text \<open>
  \<^verbatim>\<open>os.remove(path, *, dir_fd=None)\<close>: one positional argument, \<^verbatim>\<open>dir_fd\<close> being
  keyword-only. It removes a regular file and fails on a directory or a
  missing path.
\<close>

definition os_remove :: "(fsys, unit) func" where
  "os_remove args kwargs fs =
     (case (args, kwargs) of
        ([PStr p], []) \<Rightarrow>
          (case (stat fs p, resolve fs p) of
             (Some File, Some a) \<Rightarrow> (Inr (), fs\<lparr>root := remove_at (root fs) a\<rparr>)
           | _ \<Rightarrow> (Inl OSError, fs))
      | _ \<Rightarrow> (Inl TypeError, fs))"




text \<open>
  \<^verbatim>\<open>glob.glob(pattern)\<close> is not computed here: the matches of a pattern in a file
  system are given by a function \<open>G\<close>, and the call never raises on a string.
\<close>

definition glob_glob :: "(string \<Rightarrow> fsys \<Rightarrow> string list) \<Rightarrow> (fsys, string list) func" where
  "glob_glob G args kwargs fs =
     (case (args, kwargs) of
        ([PStr p], []) \<Rightarrow> (Inr (G p fs), fs)
      | _ \<Rightarrow> (Inl TypeError, fs))"


section \<open>The module\<close>

text \<open>
  The state of the module's functions is a run state over the file system.
  The lists of formats come from \<^verbatim>\<open>facefusion.choices\<close>, which is a parameter.
\<close>

type_synonym world = "fsys rt"

record choices =
  audio_formats :: "string list"
  image_formats :: "string list"
  video_formats :: "string list"

text \<open>\<^verbatim>\<open>bool(x)\<close> of the wrapper's result: \<^verbatim>\<open>None\<close> is false.\<close>

definition truthy :: "bool option \<Rightarrow> bool" where
  "truthy r = (case r of None \<Rightarrow> False | Some b \<Rightarrow> b)"

text \<open>
  \<^verbatim>\<open>
  def is_file(file_path):
      return bool(file_path and _error_handler(os.path.isfile, file_path))

  def is_directory(directory_path):
      return bool(directory_path and _error_handler(os.path.isdir, directory_path))
  \<close>
\<close>

definition is_file :: "string \<Rightarrow> (world, bool) io" where
  "is_file file_path =
     (if file_path = [] then return_io False
      else bind_io (error_handler os_path_isfile [PStr file_path] [] default_retries default_delay)
             (\<lambda>r. return_io (truthy r)))"

definition is_directory :: "string \<Rightarrow> (world, bool) io" where
  "is_directory directory_path =
     (if directory_path = [] then return_io False
      else bind_io (error_handler os_path_isdir [PStr directory_path] [] default_retries default_delay)
             (\<lambda>r. return_io (truthy r)))"

text \<open>
  \<^verbatim>\<open>
  def _is_media_type(path, formats):
      return is_file(path) and get_file_format(path) in formats
  \<close>
\<close>

definition is_media_type :: "string \<Rightarrow> string list \<Rightarrow> (world, bool) io" where
  "is_media_type path formats =
     bind_io (is_file path)
       (\<lambda>f. if f then return_io (case get_file_format path of
                                   None \<Rightarrow> False
                                 | Some fmt \<Rightarrow> fmt \<in> set formats)
            else return_io False)"

definition is_audio :: "choices \<Rightarrow> string \<Rightarrow> (world, bool) io" where
  "is_audio C audio_path = is_media_type audio_path (audio_formats C)"

definition is_image :: "choices \<Rightarrow> string \<Rightarrow> (world, bool) io" where
  "is_image C image_path = is_media_type image_path (image_formats C)"

definition is_video :: "choices \<Rightarrow> string \<Rightarrow> (world, bool) io" where
  "is_video C video_path = is_media_type video_path (video_formats C)"

text \<open>
  \<^verbatim>\<open>
  def has_audio(audio_paths):
      return any(map(is_audio, audio_paths)) if audio_paths else False
  def are_audios(audio_paths):
      return all(map(is_audio, audio_paths)) if audio_paths else False
  def has_image(image_paths):
      return any(map(is_image, image_paths)) if image_paths else False
  def are_images(image_paths):
      return all(map(is_image, image_paths)) if audio_paths else False
  def has_video(video_paths):
      return any(map(is_video, video_paths)) if video_paths else False
  def are_videos(video_paths):
      return all(map(is_video, video_paths)) if video_paths else False
  \<close>
  A conditional expression evaluates its condition first. In five of the six
  functions the condition is the parameter. In \<^verbatim>\<open>are_images\<close> it is the name
  \<^verbatim>\<open>audio_paths\<close>, and the only names in scope are the parameter \<^verbatim>\<open>image_paths\<close>
  and the module's globals, which are its imports and its functions.
\<close>

definition module_globals :: "string list" where
  "module_globals =
     [''glob'', ''os'', ''shutil'', ''time'', ''List'', ''Optional'', ''facefusion'', ''logger'',
      ''_error_handler'', ''is_file'', ''is_directory'', ''get_file_size'', ''get_file_name'',
      ''get_file_extension'', ''get_file_format'', ''same_file_extension'', ''_is_media_type'',
      ''is_audio'', ''has_audio'', ''are_audios'', ''is_image'', ''has_image'', ''are_images'',
      ''is_video'', ''has_video'', ''are_videos'', ''filter_audio_paths'', ''filter_image_paths'',
      ''_file_operation'', ''copy_file'', ''move_file'', ''remove_file'', ''resolve_file_paths'',
      ''resolve_file_pattern'', ''in_directory'', ''create_directory'', ''remove_directory'',
      ''resolve_relative_path'']"

text \<open>
  A name bound to a list of paths: a local one has its value; a global of the
  module is a module or a function, which is true as a condition and is
  represented by the non-empty list of its own name.
\<close>

definition scope_of :: "(string \<times> string list) list \<Rightarrow> (string \<times> string list) list" where
  "scope_of locals = locals @ map (\<lambda>g. (g, [g])) module_globals"

definition has_audio :: "choices \<Rightarrow> string list \<Rightarrow> (world, bool) io" where
  "has_audio C audio_paths =
     bind_io (load_name (scope_of [(''audio_paths'', audio_paths)]) ''audio_paths'')
       (\<lambda>c. if c \<noteq> [] then any_map (is_audio C) audio_paths else return_io False)"

definition are_audios :: "choices \<Rightarrow> string list \<Rightarrow> (world, bool) io" where
  "are_audios C audio_paths =
     bind_io (load_name (scope_of [(''audio_paths'', audio_paths)]) ''audio_paths'')
       (\<lambda>c. if c \<noteq> [] then all_map (is_audio C) audio_paths else return_io False)"

definition has_image :: "choices \<Rightarrow> string list \<Rightarrow> (world, bool) io" where
  "has_image C image_paths =
     bind_io (load_name (scope_of [(''image_paths'', image_paths)]) ''image_paths'')
       (\<lambda>c. if c \<noteq> [] then any_map (is_image C) image_paths else return_io False)"

definition are_images :: "choices \<Rightarrow> string list \<Rightarrow> (world, bool) io" where
  "are_images C image_paths =
     bind_io (load_name (scope_of [(''image_paths'', image_paths)]) ''audio_paths'')
       (\<lambda>c. if c \<noteq> [] then all_map (is_image C) image_paths else return_io False)"

definition has_video :: "choices \<Rightarrow> string list \<Rightarrow> (world, bool) io" where
  "has_video C video_paths =
     bind_io (load_name (scope_of [(''video_paths'', video_paths)]) ''video_paths'')
       (\<lambda>c. if c \<noteq> [] then any_map (is_video C) video_paths else return_io False)"

definition are_videos :: "choices \<Rightarrow> string list \<Rightarrow> (world, bool) io" where
  "are_videos C video_paths =
     bind_io (load_name (scope_of [(''video_paths'', video_paths)]) ''video_paths'')
       (\<lambda>c. if c \<noteq> [] then all_map (is_video C) video_paths else return_io False)"

text \<open>
  \<^verbatim>\<open>
  def filter_audio_paths(paths):
      return [p for p in paths if is_audio(p)] if paths else []
  def filter_image_paths(paths):
      return [p for p in paths if is_image(p)] if paths else []
  \<close>
\<close>

definition filter_audio_paths :: "choices \<Rightarrow> string list \<Rightarrow> (world, string list) io" where
  "filter_audio_paths C paths =
     (if paths \<noteq> [] then filter_map (is_audio C) paths else return_io [])"

definition filter_image_paths :: "choices \<Rightarrow> string list \<Rightarrow> (world, string list) io" where
  "filter_image_paths C paths =
     (if paths \<noteq> [] then filter_map (is_image C) paths else return_io [])"

text \<open>
  \<^verbatim>\<open>
  def _file_operation(operation, src, dest, success_condition):
      _error_handler(operation, src, dest)
      return success_condition()

  def copy_file(file_path, move_path):
      return _file_operation(shutil.copy, file_path, move_path,
                             lambda: is_file(move_path)) if is_file(file_path) else False

  def remove_file(file_path):
      return _file_operation(os.remove, file_path, None,
                             lambda: not is_file(file_path)) if is_file(file_path) else False
  \<close>
  \<^verbatim>\<open>shutil.copy\<close> is a parameter of \<^verbatim>\<open>copy_file\<close>.
\<close>

definition file_operation ::
  "(fsys, 'a) func \<Rightarrow> pyval \<Rightarrow> pyval \<Rightarrow> (world, bool) io \<Rightarrow> (world, bool) io" where
  "file_operation operation src dest success_condition =
     bind_io (error_handler operation [src, dest] [] default_retries default_delay)
       (\<lambda>r. success_condition)"

definition copy_file :: "(fsys, 'a) func \<Rightarrow> string \<Rightarrow> string \<Rightarrow> (world, bool) io" where
  "copy_file shutil_copy file_path move_path =
     bind_io (is_file file_path)
       (\<lambda>f. if f then file_operation shutil_copy (PStr file_path) (PStr move_path)
                        (is_file move_path)
            else return_io False)"

definition remove_file :: "string \<Rightarrow> (world, bool) io" where
  "remove_file file_path =
     bind_io (is_file file_path)
       (\<lambda>f. if f then file_operation os_remove (PStr file_path) PNone
                        (bind_io (is_file file_path) (\<lambda>g. return_io (\<not> g)))
            else return_io False)"

text \<open>
  \<^verbatim>\<open>
  def resolve_file_paths(directory_path):
      if not is_directory(directory_path):
          return []
      entries = _error_handler(os.listdir, directory_path)
      return [ os.path.join(directory_path, entry)
               for entry in sorted(entries)
               if not entry.startswith(('.', '__')) ]
  \<close>
  \<^verbatim>\<open>sorted\<close> orders strings character by character, a proper prefix coming
  first, which is the order of \<^typ>\<open>string\<close>. \<^verbatim>\<open>sorted(None)\<close> raises
  \<^verbatim>\<open>TypeError\<close>.
\<close>

definition startswith_any :: "string \<Rightarrow> string list \<Rightarrow> bool" where
  "startswith_any s prefixes = (\<exists>pre\<in>set prefixes. startswith s pre)"

definition resolve_file_paths :: "string \<Rightarrow> (world, string list) io" where
  "resolve_file_paths directory_path =
     bind_io (is_directory directory_path)
       (\<lambda>d. if \<not> d then return_io []
            else bind_io (error_handler os_listdir [PStr directory_path] [] default_retries
                            default_delay)
                   (\<lambda>entries. case entries of
                        None \<Rightarrow> raise_io TypeError
                      | Some es \<Rightarrow>
                          return_io (map (os_path_join directory_path)
                            (filter (\<lambda>entry. \<not> startswith_any entry [''.'', ''__''])
                               (sort es)))))"

text \<open>
  \<^verbatim>\<open>
  def resolve_file_pattern(file_pattern):
      return sorted(_error_handler(glob.glob, file_pattern)) if in_directory(file_pattern) else []

  def in_directory(file_path):
      if not file_path:
          return False
      dir_path = os.path.dirname(file_path)
      return bool(dir_path and not is_directory(file_path) and is_directory(dir_path))
  \<close>
\<close>

definition in_directory :: "string \<Rightarrow> (world, bool) io" where
  "in_directory file_path =
     (if file_path = [] then return_io False
      else (let dir_path = dirname file_path
            in if dir_path = [] then return_io False
               else bind_io (is_directory file_path)
                      (\<lambda>d. if d then return_io False else is_directory dir_path)))"

definition resolve_file_pattern ::
  "(string \<Rightarrow> fsys \<Rightarrow> string list) \<Rightarrow> string \<Rightarrow> (world, string list) io" where
  "resolve_file_pattern G file_pattern =
     bind_io (in_directory file_pattern)
       (\<lambda>b. if b then bind_io (error_handler (glob_glob G) [PStr file_pattern] []
                                default_retries default_delay)
                       (\<lambda>r. case r of None \<Rightarrow> raise_io TypeError
                                     | Some ms \<Rightarrow> return_io (sort ms))
            else return_io [])"


text \<open>Sample file systems and formats for concrete runs.\<close>

definition sample_choices :: choices where
  "sample_choices =
     \<lparr>audio_formats = [''mp3'', ''wav''], image_formats = [''jpeg'', ''png''],
      video_formats = [''mp4'']\<rparr>"

definition sample_fs :: fsys where
  "sample_fs =
     \<lparr>root = Dir [(''tmp'', Dir [(''b.txt'', File), (''.git'', Dir []), (''a.txt'', File),
                               (''__pycache__'', Dir []), (''pic.JPG'', File),
                               (''song.mp3'', File)]),
                  (''repo'', Dir [(''b.txt'', File), (''.git'', Dir []), (''a.txt'', File),
                                (''__pycache__'', Dir [])]),
                  (''f'', File)],
      cwd = [''tmp'']\<rparr>"

definition world_of :: "fsys \<Rightarrow> world" where
  "world_of fs = \<lparr>env = fs, log = [], slept = []\<rparr>"


section \<open>Properties of the path functions\<close>

lemma rfind_ge: "- 1 \<le> rfind c s"
  by (induction s) (auto simp: Let_def)

lemma rfind_lt: "rfind c s < int (length s)"
  by (induction s) (auto simp: Let_def)

lemma rfind_notin: "c \<notin> set s \<Longrightarrow> rfind c s = - 1"
  by (induction s) (auto simp: Let_def)

lemma rfind_in: "c \<in> set s \<Longrightarrow> 0 \<le> rfind c s"
  by (induction s) (auto simp: Let_def)

lemma rfind_append: "c \<notin> set ys \<Longrightarrow> rfind c (xs @ c # ys) = int (length xs)"
  by (induction xs) (auto simp: Let_def rfind_notin)

lemma rfind_split:
  "0 \<le> rfind c s \<Longrightarrow>
   \<exists>ys. drop (nat (rfind c s)) s = c # ys \<and> c \<notin> set ys"
proof (induction s)
  case Nil
  then show ?case by simp
next
  case (Cons x xs)
  show ?case
  proof (cases "0 \<le> rfind c xs")
    case True
    with Cons.IH obtain ys where "drop (nat (rfind c xs)) xs = c # ys" "c \<notin> set ys" by blast
    with True show ?thesis by (simp add: Let_def nat_add_distrib)
  next
    case False
    with Cons.prems have "x = c" by (simp add: Let_def split: if_splits)
    moreover from False have "c \<notin> set xs" using rfind_in [of c xs] by auto
    ultimately show ?thesis using False by (simp add: Let_def)
  qed
qed

lemma rfind_tail_notin: "c \<notin> set (drop (nat (rfind c s + 1)) s)"
proof (cases "0 \<le> rfind c s")
  case True
  from rfind_split [OF True] obtain ys where
    ys: "drop (nat (rfind c s)) s = c # ys" "c \<notin> set ys" by blast
  have "drop (nat (rfind c s + 1)) s = drop 1 (drop (nat (rfind c s)) s)"
    using True by (simp add: nat_add_distrib)
  with ys show ?thesis by simp
next
  case False
  then have "c \<notin> set s" using rfind_in [of c s] by auto
  moreover have "rfind c s = - 1" using False rfind_ge [of c s] by linarith
  ultimately show ?thesis by simp
qed

lemma splitext_loop_snd:
  "snd (splitext_loop p d i) = [] \<or> snd (splitext_loop p d i) = drop d p"
proof (induction p d i rule: splitext_loop.induct)
  case (1 p dotIndex filenameIndex)
  then show ?case
    by (subst (1 2) splitext_loop.simps) simp
qed

lemma splitext_loop_stop: "d \<le> i \<Longrightarrow> splitext_loop p d i = (p, [])"
  by (subst splitext_loop.simps) simp

lemma splitext_snd:
  "snd (splitext p) = [] \<or> (\<exists>r. snd (splitext p) = CHR ''.'' # r \<and> CHR ''.'' \<notin> set r)"
proof (cases "rfind CHR ''/'' p < rfind CHR ''.'' p")
  case True
  then have nn: "0 \<le> rfind CHR ''.'' p" using rfind_ge [of "CHR ''/''" p] by linarith
  from rfind_split [OF nn] obtain r where
    "drop (nat (rfind CHR ''.'' p)) p = CHR ''.'' # r" "CHR ''.'' \<notin> set r" by blast
  moreover from True have "splitext p =
      splitext_loop p (nat (rfind CHR ''.'' p)) (nat (rfind CHR ''/'' p + 1))"
    by (simp add: splitext_def)
  ultimately show ?thesis
    using splitext_loop_snd [of p "nat (rfind CHR ''.'' p)" "nat (rfind CHR ''/'' p + 1)"]
    by auto
next
  case False
  then show ?thesis by (simp add: splitext_def)
qed

lemma lower_char_dot: "lower_char c = CHR ''.'' \<longleftrightarrow> c = CHR ''.''"
proof (cases "CHR ''A'' \<le> c \<and> c \<le> CHR ''Z''")
  case True
  then have rng: "65 \<le> (of_char c :: nat)" "(of_char c :: nat) \<le> 90"
    by (simp_all add: less_eq_char_def)
  have "(of_char (char_of (of_char c + (32 :: nat))) :: nat) = (of_char c + 32) mod 256"
    by (rule of_char_of)
  with rng have oc: "(of_char (char_of (of_char c + (32 :: nat))) :: nat) = of_char c + 32"
    by simp
  have "char_of (of_char c + (32 :: nat)) \<noteq> CHR ''.''"
  proof
    assume "char_of (of_char c + (32 :: nat)) = CHR ''.''"
    then have "(of_char (char_of (of_char c + (32 :: nat))) :: nat) = of_char CHR ''.''"
      by (rule arg_cong)
    with oc rng show False by simp
  qed
  moreover have "c \<noteq> CHR ''.''"
  proof
    assume "c = CHR ''.''"
    with rng show False by simp
  qed
  ultimately show ?thesis using True by (simp add: lower_char_def)
next
  case False
  then have "lower_char c = c" unfolding lower_char_def by (rule if_not_P)
  then show ?thesis by simp
qed

lemma lower_notin_dot: "CHR ''.'' \<notin> set r \<Longrightarrow> CHR ''.'' \<notin> set (lower r)"
proof (induction r)
  case Nil
  then show ?case by (simp add: lower_def)
next
  case (Cons a r)
  then have "a \<noteq> CHR ''.''" by auto
  then have "lower_char a \<noteq> CHR ''.''" by (simp add: lower_char_dot)
  with Cons show ?case by (auto simp: lower_def)
qed

lemma lower_Cons_dot: "lower (CHR ''.'' # r) = CHR ''.'' # lower r"
proof -
  have "lower_char CHR ''.'' = CHR ''.''" by (simp add: lower_char_dot)
  then show ?thesis by (simp add: lower_def)
qed

lemma lstrip_ext: "CHR ''.'' \<notin> set r \<Longrightarrow> lstrip CHR ''.'' (CHR ''.'' # r) = r"
proof (cases r)
  case Nil
  then show ?thesis by (simp add: lstrip_def)
next
  case (Cons a list)
  assume "CHR ''.'' \<notin> set r"
  with Cons have "a \<noteq> CHR ''.''" by auto
  with Cons show ?thesis by (simp add: lstrip_def)
qed

lemma get_file_extension_shape:
  assumes "get_file_extension p = Some e"
  shows "\<exists>r. e = CHR ''.'' # r \<and> CHR ''.'' \<notin> set r"
proof -
  from assms have ne: "snd (splitext p) \<noteq> []" and e: "e = lower (snd (splitext p))"
    by (auto simp: get_file_extension_def Let_def split: if_splits)
  with splitext_snd [of p] obtain r where
    r: "snd (splitext p) = CHR ''.'' # r" "CHR ''.'' \<notin> set r" by blast
  from e r(1) have "e = CHR ''.'' # lower r" by (simp add: lower_Cons_dot)
  moreover from r(2) have "CHR ''.'' \<notin> set (lower r)" by (rule lower_notin_dot)
  ultimately show ?thesis by blast
qed

text \<open>
  Claim C5. \<^verbatim>\<open>get_file_format\<close> is absent when the path has no extension. Otherwise
  the extension \<open>e\<close> reported by \<^verbatim>\<open>get_file_extension\<close> is the lower-cased suffix
  found by \<^verbatim>\<open>splitext\<close>, it starts with the dot, and the format is \<^verbatim>\<open>jpeg\<close> for
  \<^verbatim>\<open>.jpg\<close>, \<^verbatim>\<open>tiff\<close> for \<^verbatim>\<open>.tif\<close>, and \<open>e\<close> without its leading dot for every
  other extension; \<^verbatim>\<open>get_file_format("a.JPG")\<close> is \<^verbatim>\<open>"jpeg"\<close>.
\<close>

theorem get_file_format_spec:
  "(get_file_extension p = None \<longrightarrow> get_file_format p = None) \<and>
   (\<forall>e. get_file_extension p = Some e \<longrightarrow>
      e = lower (snd (splitext p)) \<and> hd e = CHR ''.'' \<and>
      get_file_format p =
        Some (if e = ''.jpg'' then ''jpeg'' else if e = ''.tif'' then ''tiff'' else tl e)) \<and>
   get_file_format ''a.JPG'' = Some ''jpeg''"
proof (intro conjI allI impI)
  show "get_file_format ''a.JPG'' = Some ''jpeg''" by code_simp
next
  assume "get_file_extension p = None"
  then show "get_file_format p = None" by (simp add: get_file_format_def)
next
  fix e assume e: "get_file_extension p = Some e"
  then show "e = lower (snd (splitext p))"
    by (auto simp: get_file_extension_def Let_def split: if_splits)
next
  fix e assume e: "get_file_extension p = Some e"
  from get_file_extension_shape [OF e] show "hd e = CHR ''.''" by auto
next
  fix e assume e: "get_file_extension p = Some e"
  from get_file_extension_shape [OF e] obtain r where
    r: "e = CHR ''.'' # r" "CHR ''.'' \<notin> set r" by blast
  from r have strip: "lstrip CHR ''.'' e = tl e" by (simp add: lstrip_ext)
  have ne: "e \<noteq> []" using r(1) by simp
  show "get_file_format p =
      Some (if e = ''.jpg'' then ''jpeg'' else if e = ''.tif'' then ''tiff'' else tl e)"
  proof (cases "e = ''.jpg''")
    case True
    with e show ?thesis by (simp add: get_file_format_def format_renames_def)
  next
    case nj: False
    show ?thesis
    proof (cases "e = ''.tif''")
      case True
      with e show ?thesis by (simp add: get_file_format_def format_renames_def)
    next
      case False
      with nj have "format_renames e = None" by (simp add: format_renames_def)
      with e ne strip nj False show ?thesis by (simp add: get_file_format_def)
    qed
  qed
qed

theorem get_file_format_spec_witness:
  "get_file_extension ''clip.Mp4'' = Some ''.mp4'' \<and> get_file_format ''clip.Mp4'' = Some ''mp4''
   \<and> get_file_extension ''Makefile'' = None \<and> get_file_format ''Makefile'' = None"
proof -
  have a: "get_file_extension ''clip.Mp4'' = Some ''.mp4''" by code_simp
  have b: "get_file_extension ''Makefile'' = None" by code_simp
  from get_file_format_spec [of "''clip.Mp4''"] a
  have "get_file_format ''clip.Mp4'' =
      Some (if ''.mp4'' = ''.jpg'' then ''jpeg'' else if ''.mp4'' = ''.tif'' then ''tiff'' else tl ''.mp4'')"
    by blast
  then have c: "get_file_format ''clip.Mp4'' = Some ''mp4''" by simp
  from get_file_format_spec [of "''Makefile''"] b
  have d: "get_file_format ''Makefile'' = None" by blast
  from a b c d show ?thesis by blast
qed

text \<open>
  Claim C10. When the base name of a path is a dot followed by characters none of
  which is a dot (such as \<^verbatim>\<open>.gitignore\<close>), the leading dot does not separate an
  extension: \<^verbatim>\<open>get_file_name\<close> returns the whole base name and
  \<^verbatim>\<open>get_file_extension\<close> is absent.
\<close>

theorem dotfile_name_extension:
  assumes b: "basename p = CHR ''.'' # r" and r: "CHR ''.'' \<notin> set r"
  shows "get_file_name p = Some (basename p) \<and> get_file_extension p = None"
proof -
  let ?i = "rfind CHR ''/'' p"
  let ?d = "take (nat (?i + 1)) p"
  have "?d @ basename p = p" unfolding basename_def by (rule append_take_drop_id)
  with b have p: "p = ?d @ CHR ''.'' # r" by simp
  have len: "int (length ?d) = ?i + 1"
    using rfind_lt [of "CHR ''/''" p] rfind_ge [of "CHR ''/''" p] by simp
  have "rfind CHR ''.'' (?d @ CHR ''.'' # r) = int (length ?d)"
    using r by (rule rfind_append)
  with p len have dot: "rfind CHR ''.'' p = ?i + 1" by simp
  have "splitext p = splitext_loop p (nat (?i + 1)) (nat (?i + 1))"
    using dot by (simp add: splitext_def Let_def)
  also have "\<dots> = (p, [])" by (rule splitext_loop_stop) simp
  finally have ext: "get_file_extension p = None" by (simp add: get_file_extension_def)
  have "CHR ''/'' \<notin> set (basename p)"
    unfolding basename_def by (rule rfind_tail_notin)
  then have sep: "rfind CHR ''/'' (basename p) = - 1" by (rule rfind_notin)
  have "rfind CHR ''.'' ([] @ CHR ''.'' # r) = int (length ([] :: string))"
    using r by (rule rfind_append)
  with b have dot': "rfind CHR ''.'' (basename p) = 0" by simp
  have "splitext (basename p) = splitext_loop (basename p) 0 0"
    using sep dot' by (simp add: splitext_def Let_def)
  also have "\<dots> = (basename p, [])" by (rule splitext_loop_stop) simp
  finally have "get_file_name p = Some (basename p)" using b by (simp add: get_file_name_def)
  with ext show ?thesis by simp
qed

theorem dotfile_name_extension_witness:
  "basename ''/repo/.gitignore'' = CHR ''.'' # ''gitignore'' \<and> CHR ''.'' \<notin> set ''gitignore'' \<and>
   get_file_name ''/repo/.gitignore'' = Some ''.gitignore'' \<and>
   get_file_extension ''/repo/.gitignore'' = None"
proof -
  have b: "basename ''/repo/.gitignore'' = CHR ''.'' # ''gitignore''" by code_simp
  have r: "CHR ''.'' \<notin> set ''gitignore''" by simp
  from dotfile_name_extension [OF b r] b r show ?thesis by simp
qed


section \<open>The retry wrapper\<close>

lemma env_logger_debug: "env (logger_debug m w) = env w"
  by (simp add: logger_debug_def)

lemma env_time_sleep: "env (time_sleep d w) = env w"
  by (simp add: time_sleep_def)

lemma traced_step:
  "func args kwargs (fst et) = (r, e') \<Longrightarrow>
   traced func args kwargs et = (r, (e', snd et @ [r]))"
  by (simp add: traced_def)

lemma error_handler_loop_trace:
  assumes "k = 0 \<or> int (attempt + k) = retries"
    and "error_handler_loop (traced func) args kwargs retries delay k attempt w = (res, w')"
  shows "\<exists>new. snd (env w') = snd (env w) @ new \<and> length new \<le> k \<and>
           (res = Inr None \<longrightarrow> k = 0) \<and>
           (\<forall>v. res = Inr (Some v) \<longrightarrow>
                 new \<noteq> [] \<and> last new = Inr v \<and> (\<forall>r\<in>set (butlast new). isl r)) \<and>
           (\<forall>x. res = Inl x \<longrightarrow> new \<noteq> [] \<and> last new = Inl x \<and> (\<forall>r\<in>set new. isl r))"
  using assms
proof (induction k arbitrary: attempt w)
  case 0
  then show ?case by auto
next
  case (Suc k)
  obtain r e' where "func args kwargs (fst (env w)) = (r, e')" by (cases "func args kwargs (fst (env w))")
  then have step: "traced func args kwargs (env w) = (r, (e', snd (env w) @ [r]))"
    by (rule traced_step)
  let ?r = r
  let ?e = e'
  let ?tr = "snd (env w) @ [r]"
  have inv: "int (attempt + Suc k) = retries" using Suc.prems(1) by simp
  show ?case
  proof (cases r)
    case (Inr v)
    with Suc.prems(2) have "res = Inr (Some v)" and "snd (env w') = ?tr"
      by (auto simp: step env_logger_debug split: if_splits)
    then show ?thesis using Inr by (intro exI [of _ "[?r]"]) simp
  next
    case (Inl x)
    let ?w1 = "logger_debug (Error_on (attempt + 1) retries x) (w\<lparr>env := (?e, ?tr)\<rparr>)"
    show ?thesis
    proof (cases "int attempt < retries - 1")
      case True
      with Inl Suc.prems(2) have rec:
        "error_handler_loop (traced func) args kwargs retries delay k (attempt + 1)
           (time_sleep delay ?w1) = (res, w')"
        by (simp add: step Let_def)
      from True inv have k: "k \<noteq> 0" by auto
      from inv have "k = 0 \<or> int (attempt + 1 + k) = retries" by simp
      from Suc.IH [OF this rec] obtain new where new:
        "snd (env w') = snd (env (time_sleep delay ?w1)) @ new" "length new \<le> k"
        "res = Inr None \<longrightarrow> k = 0"
        "\<forall>v. res = Inr (Some v) \<longrightarrow>
             new \<noteq> [] \<and> last new = Inr v \<and> (\<forall>r\<in>set (butlast new). isl r)"
        "\<forall>x. res = Inl x \<longrightarrow> new \<noteq> [] \<and> last new = Inl x \<and> (\<forall>r\<in>set new. isl r)"
        by blast
      have "snd (env w') = snd (env w) @ (?r # new)"
        using new(1) by (simp add: env_time_sleep env_logger_debug)
      moreover have "length (?r # new) \<le> Suc k" using new(2) by simp
      moreover have "res \<noteq> Inr None" using new(3) k by blast
      moreover have "\<forall>v. res = Inr (Some v) \<longrightarrow>
             ?r # new \<noteq> [] \<and> last (?r # new) = Inr v \<and> (\<forall>r\<in>set (butlast (?r # new)). isl r)"
        using new(4) Inl by auto
      moreover have "\<forall>x. res = Inl x \<longrightarrow>
             ?r # new \<noteq> [] \<and> last (?r # new) = Inl x \<and> (\<forall>r\<in>set (?r # new). isl r)"
        using new(5) Inl by auto
      ultimately show ?thesis by blast
    next
      case False
      with Inl Suc.prems(2) have "res = Inl x" and "snd (env w') = ?tr"
        by (auto simp: step Let_def env_logger_debug)
      then show ?thesis using Inl by (intro exI [of _ "[?r]"]) simp
    qed
  qed
qed

text \<open>
  Claim C3. Run the wrapper on an operation whose invocations are traced, starting
  from an empty trace. The operation is invoked at most \<^verbatim>\<open>retries\<close> times (the
  default being 3). If some invocation returned a value, the wrapper returns
  that value. If at least one invocation was made and all of them raised, the
  wrapper raises the exception of the last one. With a positive \<^verbatim>\<open>retries\<close> at
  least one invocation is made; with \<^verbatim>\<open>retries\<close> zero or negative the loop body
  never runs, nothing is invoked and the wrapper returns \<^verbatim>\<open>None\<close>.
\<close>

theorem error_handler_contract:
  fixes func :: "('e, 'a) func"
  assumes run: "error_handler (traced func) args kwargs retries delay w = (res, w')"
    and fresh: "snd (env w) = []"
  shows "length (snd (env w')) \<le> nat retries \<and>
         (\<forall>v. Inr v \<in> set (snd (env w')) \<longrightarrow> res = Inr (Some v)) \<and>
         (snd (env w') \<noteq> [] \<and> (\<forall>r\<in>set (snd (env w')). isl r) \<longrightarrow>
            res = Inl (projl (last (snd (env w'))))) \<and>
         (0 < retries \<longrightarrow> snd (env w') \<noteq> []) \<and>
         (retries \<le> 0 \<longrightarrow> snd (env w') = [] \<and> res = Inr None) \<and>
         default_retries = 3"
proof -
  let ?tr = "snd (env w')"
  have inv: "nat retries = 0 \<or> int (0 + nat retries) = retries" by auto
  from run have loop:
    "error_handler_loop (traced func) args kwargs retries delay (nat retries) 0 w = (res, w')"
    by (simp add: error_handler_def)
  from error_handler_loop_trace [OF inv loop] obtain new where new:
    "snd (env w') = snd (env w) @ new" "length new \<le> nat retries"
    "res = Inr None \<longrightarrow> nat retries = 0"
    "\<forall>v. res = Inr (Some v) \<longrightarrow>
         new \<noteq> [] \<and> last new = Inr v \<and> (\<forall>r\<in>set (butlast new). isl r)"
    "\<forall>x. res = Inl x \<longrightarrow> new \<noteq> [] \<and> last new = Inl x \<and> (\<forall>r\<in>set new. isl r)"
    by blast
  from new(1) fresh have tr: "?tr = new" by simp
  have len: "length ?tr \<le> nat retries" using new(2) tr by simp
  have none: "nat retries = 0" if "res = Inr None" using new(3) that by simp
  have some: "?tr \<noteq> [] \<and> last ?tr = Inr v \<and> (\<forall>r\<in>set (butlast ?tr). isl r)"
    if "res = Inr (Some v)" for v using new(4) that tr by simp
  have fail: "?tr \<noteq> [] \<and> last ?tr = Inl x \<and> (\<forall>r\<in>set ?tr. isl r)"
    if "res = Inl x" for x using new(5) that tr by simp
  have b: "res = Inr (Some v)" if v: "Inr v \<in> set ?tr" for v
  proof (cases res)
    case (Inl x)
    from fail [OF Inl] have "\<forall>r\<in>set ?tr. isl r" by simp
    with v have "isl (Inr v :: exn + 'a)" by blast
    then show ?thesis by simp
  next
    case (Inr o')
    show ?thesis
    proof (cases o')
      case None
      with Inr have "nat retries = 0" by (intro none) simp
      with len have "?tr = []" by simp
      with v show ?thesis by simp
    next
      case (Some v')
      with Inr have "res = Inr (Some v')" by simp
      from some [OF this] have s: "?tr \<noteq> []" "last ?tr = Inr v'"
        "\<forall>r\<in>set (butlast ?tr). isl r" by simp_all
      from s(1) have "butlast ?tr @ [last ?tr] = ?tr" by (rule append_butlast_last_id)
      then have "set ?tr = set (butlast ?tr @ [last ?tr])" by simp
      with v have "Inr v \<in> set (butlast ?tr) \<or> Inr v = last ?tr" by auto
      then have "Inr v = last ?tr"
      proof
        assume "Inr v \<in> set (butlast ?tr)"
        with s(3) have "isl (Inr v :: exn + 'a)" by blast
        then show ?thesis by simp
      qed
      with s(2) have "v = v'" by simp
      with Inr Some show ?thesis by simp
    qed
  qed
  have c: "res = Inl (projl (last ?tr))" if ne: "?tr \<noteq> []" and all: "\<forall>r\<in>set ?tr. isl r"
  proof (cases res)
    case (Inl x)
    from fail [OF Inl] have "last ?tr = Inl x" by simp
    with Inl show ?thesis by simp
  next
    case (Inr o')
    show ?thesis
    proof (cases o')
      case None
      with Inr have "nat retries = 0" by (intro none) simp
      with len ne show ?thesis by simp
    next
      case (Some v')
      with Inr have "res = Inr (Some v')" by simp
      from some [OF this] have s: "?tr \<noteq> []" "last ?tr = Inr v'" by simp_all
      from s(1) have "last ?tr \<in> set ?tr" by (rule last_in_set)
      with all have "isl (last ?tr)" by blast
      with s(2) show ?thesis by simp
    qed
  qed
  have d: "?tr \<noteq> []" if pos: "0 < retries"
  proof (cases res)
    case (Inl x)
    from fail [OF Inl] show ?thesis by simp
  next
    case (Inr o')
    show ?thesis
    proof (cases o')
      case None
      with Inr have "nat retries = 0" by (intro none) simp
      with pos show ?thesis by simp
    next
      case (Some v')
      with Inr have "res = Inr (Some v')" by simp
      from some [OF this] show ?thesis by simp
    qed
  qed
  have e: "?tr = [] \<and> res = Inr None" if "retries \<le> 0"
  proof -
    from that have "nat retries = 0" by simp
    with loop have "res = Inr None" "w' = w" by simp_all
    with fresh show ?thesis by simp
  qed
  have f: "default_retries = 3" by (simp add: default_retries_def)
  from len b c d e f show ?thesis by blast
qed

lemma flaky_run:
  "error_handler (traced flaky) [] [] 3 1 \<lparr>env = (0, []), log = [], slept = []\<rparr>
     = (Inr (Some ''ok''),
        \<lparr>env = (3, [Inl OSError, Inl OSError, Inr ''ok'']),
         log = [Error_on 1 3 OSError, Error_on 2 3 OSError, Success_on 3 3], slept = [1, 1]\<rparr>)"
  by code_simp

lemma always_fails_run:
  "error_handler (traced always_fails) [] [] 3 1 \<lparr>env = (0, []), log = [], slept = []\<rparr>
     = (Inl OSError,
        \<lparr>env = (3, [Inl OSError, Inl OSError, Inl OSError]),
         log = [Error_on 1 3 OSError, Error_on 2 3 OSError, Error_on 3 3 OSError],
         slept = [1, 1]\<rparr>)"
  by code_simp

theorem error_handler_contract_witness:
  "error_handler (traced flaky) [] [] 3 1 \<lparr>env = (0, []), log = [], slept = []\<rparr>
     = (Inr (Some ''ok''),
        \<lparr>env = (3, [Inl OSError, Inl OSError, Inr ''ok'']),
         log = [Error_on 1 3 OSError, Error_on 2 3 OSError, Success_on 3 3], slept = [1, 1]\<rparr>)
   \<and> error_handler (traced always_fails) [] [] 3 1 \<lparr>env = (0, []), log = [], slept = []\<rparr>
     = (Inl OSError,
        \<lparr>env = (3, [Inl OSError, Inl OSError, Inl OSError]),
         log = [Error_on 1 3 OSError, Error_on 2 3 OSError, Error_on 3 3 OSError],
         slept = [1, 1]\<rparr>)
   \<and> snd (env \<lparr>env = (0 :: nat, [] :: (exn + string) list), log = [], slept = []\<rparr>) = []
   \<and> length [Inl OSError, Inl OSError, Inr ''ok'' :: exn + string] \<le> nat 3
   \<and> Inr ''ok'' \<in> set [Inl OSError, Inl OSError, Inr ''ok'' :: exn + string]
   \<and> isl (Inl OSError :: exn + string)
   \<and> [Inl OSError, Inl OSError, Inl OSError :: exn + string] \<noteq> []
   \<and> (Inl OSError :: exn + string option) =
       Inl (projl (last [Inl OSError, Inl OSError, Inl OSError :: exn + string]))
   \<and> (0 :: int) < 3"
proof -
  let ?w = "\<lparr>env = (0 :: nat, [] :: (exn + string) list), log = [], slept = []\<rparr>"
  have fresh: "snd (env ?w) = []" by simp
  from error_handler_contract [OF flaky_run fresh]
    error_handler_contract [OF always_fails_run fresh] flaky_run always_fails_run fresh
  show ?thesis by simp
qed


section \<open>The module's functions\<close>

lemma bind_return [simp]: "bind_io (return_io v) f w = f v w"
  by (simp add: bind_io_def return_io_def)

lemma bind_raise [simp]: "bind_io (raise_io e) f w = (Inl e, w)"
  by (simp add: bind_io_def raise_io_def)

lemma bind_Inr: "m w = (Inr v, w') \<Longrightarrow> bind_io m f w = f v w'"
  by (simp add: bind_io_def)

lemma bind_Inl: "m w = (Inl e, w') \<Longrightarrow> bind_io m f w = (Inl e, w')"
  by (simp add: bind_io_def)

lemma error_handler_first:
  assumes "func args kwargs (env w) = (Inr v, e')"
  shows "error_handler func args kwargs default_retries delay w = (Inr (Some v), w\<lparr>env := e'\<rparr>)"
  using assms by (simp add: error_handler_def default_retries_def numeral_3_eq_3)

lemma error_handler_all_fail:
  assumes "func args kwargs (env w) = (Inl e, env w)"
  shows "error_handler func args kwargs default_retries delay w =
           (Inl e, w\<lparr>log := log w @ [Error_on 1 3 e, Error_on 2 3 e, Error_on 3 3 e],
                     slept := slept w @ [delay, delay]\<rparr>)"
  using assms
  by (simp add: error_handler_def numeral_3_eq_3 logger_debug_def time_sleep_def
      default_retries_def)

lemma is_file_eq: "is_file p w = (Inr (p \<noteq> [] \<and> stat (env w) p = Some File), w)"
proof (cases "p = []")
  case True
  then show ?thesis by (simp add: is_file_def return_io_def)
next
  case False
  have "os_path_isfile [PStr p] [] (env w) = (Inr (stat (env w) p = Some File), env w)"
    by (simp add: os_path_isfile_def)
  from error_handler_first [where func = os_path_isfile, OF this] False show ?thesis
    by (simp add: is_file_def bind_io_def return_io_def truthy_def)
qed

lemma is_directory_eq: "is_directory p w = (Inr (p \<noteq> [] \<and> is_dir_node (stat (env w) p)), w)"
proof (cases "p = []")
  case True
  then show ?thesis by (simp add: is_directory_def return_io_def)
next
  case False
  have "os_path_isdir [PStr p] [] (env w) = (Inr (is_dir_node (stat (env w) p)), env w)"
    by (simp add: os_path_isdir_def)
  from error_handler_first [where func = os_path_isdir, OF this] False show ?thesis
    by (simp add: is_directory_def bind_io_def return_io_def truthy_def)
qed

lemma audio_paths_unbound:
  "map_of (scope_of [(''image_paths'', ps)]) ''audio_paths'' = None"
  by (simp add: scope_of_def module_globals_def)

lemma are_images_raises: "are_images C image_paths w = (Inl (NameError ''audio_paths''), w)"
  by (simp add: are_images_def load_name_def audio_paths_unbound)

text \<open>
  Claim C1. On the empty list \<^verbatim>\<open>has_audio\<close>, \<^verbatim>\<open>has_image\<close>, \<^verbatim>\<open>has_video\<close>,
  \<^verbatim>\<open>are_audios\<close> and \<^verbatim>\<open>are_videos\<close> return false and leave the state as it is.
  \<^verbatim>\<open>are_images\<close> does not: its condition reads the unbound name \<^verbatim>\<open>audio_paths\<close>, so
  the call raises \<^verbatim>\<open>NameError\<close>, on the empty list as on every other.
\<close>

theorem batch_predicates_empty:
  "has_audio C [] w = (Inr False, w) \<and> has_image C [] w = (Inr False, w) \<and>
   has_video C [] w = (Inr False, w) \<and> are_audios C [] w = (Inr False, w) \<and>
   are_videos C [] w = (Inr False, w) \<and>
   are_images C [] w = (Inl (NameError ''audio_paths''), w)"
  by (simp add: has_audio_def has_image_def has_video_def are_audios_def are_videos_def
      load_name_def scope_of_def are_images_raises return_io_def)

lemma remove_file_eq:
  "remove_file p w =
     (if p \<noteq> [] \<and> stat (env w) p = Some File
      then (Inl TypeError,
            w\<lparr>log := log w @ [Error_on 1 3 TypeError, Error_on 2 3 TypeError, Error_on 3 3 TypeError],
              slept := slept w @ [1, 1]\<rparr>)
      else (Inr False, w))"
proof -
  have "os_remove [PStr p, PNone] [] (env w) = (Inl TypeError, env w)"
    by (simp add: os_remove_def)
  from error_handler_all_fail [where func = os_remove and delay = default_delay, OF this]
  have "file_operation os_remove (PStr p) PNone c w =
          (Inl TypeError,
            w\<lparr>log := log w @ [Error_on 1 3 TypeError, Error_on 2 3 TypeError, Error_on 3 3 TypeError],
              slept := slept w @ [1, 1]\<rparr>)" for c
    by (simp add: file_operation_def bind_io_def default_delay_def)
  then show ?thesis
    by (simp add: remove_file_def bind_Inr [OF is_file_eq] return_io_def)
qed

text \<open>
  Claim C2. \<^verbatim>\<open>remove_file\<close> on a path that is a regular file passes two positional
  arguments to \<^verbatim>\<open>os.remove\<close>, which accepts one: each of the three attempts raises
  \<^verbatim>\<open>TypeError\<close>, the wrapper re-raises it, and the file stays. On a path that is not
  a file the function returns false.
\<close>

theorem remove_file_existing_raises:
  "remove_file ''/tmp/a.txt'' (world_of sample_fs) =
     (Inl TypeError,
      \<lparr>env = sample_fs,
       log = [Error_on 1 3 TypeError, Error_on 2 3 TypeError, Error_on 3 3 TypeError],
       slept = [1, 1]\<rparr>) \<and>
   is_file ''/tmp/a.txt'' (world_of sample_fs) = (Inr True, world_of sample_fs) \<and>
   remove_file ''/tmp/missing.txt'' (world_of sample_fs) = (Inr False, world_of sample_fs)"
proof -
  have a: "stat sample_fs ''/tmp/a.txt'' = Some File" by code_simp
  have b: "stat sample_fs ''/tmp/missing.txt'' = None" by code_simp
  show ?thesis by (simp add: remove_file_eq is_file_eq world_of_def a b)
qed

text \<open>
  Claim C8. When \<^verbatim>\<open>is_file(src)\<close> does not hold, \<^verbatim>\<open>copy_file(src, dest)\<close> returns false
  and the state after the call is the state before it, whatever \<^verbatim>\<open>shutil.copy\<close> would
  do: nothing is copied, logged or slept.
\<close>

theorem copy_file_no_source:
  assumes "fst (is_file src w) \<noteq> Inr True"
  shows "copy_file shutil_copy src dest w = (Inr False, w)"
proof -
  from assms have "is_file src w = (Inr False, w)" by (simp add: is_file_eq)
  then show ?thesis by (simp add: copy_file_def bind_io_def return_io_def)
qed

lemma is_media_type_eq:
  "is_media_type p fmts w =
     (Inr (p \<noteq> [] \<and> stat (env w) p = Some File \<and>
           (\<exists>f. get_file_format p = Some f \<and> f \<in> set fmts)), w)"
  by (cases "get_file_format p")
     (simp_all add: is_media_type_def bind_Inr [OF is_file_eq] return_io_def)

lemma filter_map_pure:
  assumes "\<And>x. f x w = (Inr (P x), w)"
  shows "filter_map f xs w = (Inr (filter P xs), w)"
proof (induction xs)
  case Nil
  show ?case by (simp add: return_io_def)
next
  case (Cons x xs)
  have "f x w = (Inr (P x), w)" by (rule assms)
  with Cons.IH show ?case by (simp add: bind_io_def return_io_def)
qed

lemma filter_media_eq:
  "filter_map (\<lambda>p. is_media_type p fmts) paths w =
     (Inr (filter (\<lambda>p. fst (is_file p w) = Inr True \<and>
                       (\<exists>f. get_file_format p = Some f \<and> f \<in> set fmts)) paths), w)"
proof -
  have "is_media_type p fmts w =
          (Inr (fst (is_file p w) = Inr True \<and>
                (\<exists>f. get_file_format p = Some f \<and> f \<in> set fmts)), w)" for p
    by (simp add: is_media_type_eq is_file_eq)
  then show ?thesis by (rule filter_map_pure)
qed

text \<open>
  Claim C6. \<^verbatim>\<open>filter_audio_paths\<close> and \<^verbatim>\<open>filter_image_paths\<close> return, in their original
  order, exactly the members \<open>p\<close> with \<^verbatim>\<open>is_file(p)\<close> whose format is in the list of the
  category; a path that is not a regular file (a directory, a missing path) is
  never in the result; the empty list gives the empty list.
\<close>

theorem filter_paths_spec:
  "filter_audio_paths C paths w =
     (Inr (filter (\<lambda>p. fst (is_file p w) = Inr True \<and>
                       (\<exists>f. get_file_format p = Some f \<and> f \<in> set (audio_formats C))) paths), w) \<and>
   filter_image_paths C paths w =
     (Inr (filter (\<lambda>p. fst (is_file p w) = Inr True \<and>
                       (\<exists>f. get_file_format p = Some f \<and> f \<in> set (image_formats C))) paths), w) \<and>
   (\<forall>p. stat (env w) p \<noteq> Some File \<longrightarrow>
        p \<notin> set (projr (fst (filter_audio_paths C paths w))) \<and>
        p \<notin> set (projr (fst (filter_image_paths C paths w)))) \<and>
   filter_audio_paths C [] w = (Inr [], w) \<and> filter_image_paths C [] w = (Inr [], w)"
proof -
  have a: "filter_audio_paths C paths w =
     (Inr (filter (\<lambda>p. fst (is_file p w) = Inr True \<and>
                       (\<exists>f. get_file_format p = Some f \<and> f \<in> set (audio_formats C))) paths), w)"
  proof (cases "paths = []")
    case True
    then show ?thesis by (simp add: filter_audio_paths_def return_io_def)
  next
    case False
    have "is_audio C = (\<lambda>p. is_media_type p (audio_formats C))"
      by (rule ext) (simp add: is_audio_def)
    with False show ?thesis by (simp add: filter_audio_paths_def filter_media_eq)
  qed
  have b: "filter_image_paths C paths w =
     (Inr (filter (\<lambda>p. fst (is_file p w) = Inr True \<and>
                       (\<exists>f. get_file_format p = Some f \<and> f \<in> set (image_formats C))) paths), w)"
  proof (cases "paths = []")
    case True
    then show ?thesis by (simp add: filter_image_paths_def return_io_def)
  next
    case False
    have "is_image C = (\<lambda>p. is_media_type p (image_formats C))"
      by (rule ext) (simp add: is_image_def)
    with False show ?thesis by (simp add: filter_image_paths_def filter_media_eq)
  qed
  have c: "p \<notin> set (projr (fst (filter_audio_paths C paths w))) \<and>
        p \<notin> set (projr (fst (filter_image_paths C paths w)))"
    if "stat (env w) p \<noteq> Some File" for p
    using that by (simp add: a b is_file_eq)
  have d: "filter_audio_paths C [] w = (Inr [], w)" "filter_image_paths C [] w = (Inr [], w)"
    by (simp_all add: filter_audio_paths_def filter_image_paths_def return_io_def)
  from a b c d show ?thesis by blast
qed

theorem filter_paths_spec_witness:
  "filter_image_paths sample_choices [''/tmp/pic.JPG'', ''/tmp'', ''nope.png'', ''pic.JPG'', ''a.txt'']
     (world_of sample_fs) = (Inr [''/tmp/pic.JPG'', ''pic.JPG''], world_of sample_fs) \<and>
   stat (env (world_of sample_fs)) ''/tmp'' \<noteq> Some File \<and>
   ''/tmp'' \<notin> set (projr (fst (filter_image_paths sample_choices
       [''/tmp/pic.JPG'', ''/tmp'', ''nope.png'', ''pic.JPG'', ''a.txt''] (world_of sample_fs))))"
proof -
  let ?ps = "[''/tmp/pic.JPG'', ''/tmp'', ''nope.png'', ''pic.JPG'', ''a.txt'']"
  have run: "filter_image_paths sample_choices ?ps (world_of sample_fs) =
      (Inr [''/tmp/pic.JPG'', ''pic.JPG''], world_of sample_fs)"
    by code_simp
  have st: "stat (env (world_of sample_fs)) ''/tmp'' \<noteq> Some File" by code_simp
  from filter_paths_spec [of sample_choices ?ps "world_of sample_fs"] st
  have "''/tmp'' \<notin> set (projr (fst (filter_image_paths sample_choices ?ps (world_of sample_fs))))"
    by blast
  with run st show ?thesis by blast
qed

theorem copy_file_no_source_witness:
  "fst (is_file ''/tmp/missing.txt'' (world_of sample_fs)) \<noteq> Inr True \<and>
   copy_file (\<lambda>args kwargs fs. (Inr ''/tmp/copy.txt'', fs\<lparr>root := File\<rparr>))
     ''/tmp/missing.txt'' ''/tmp/copy.txt'' (world_of sample_fs) = (Inr False, world_of sample_fs)"
proof -
  have "stat sample_fs ''/tmp/missing.txt'' = None" by code_simp
  then have h: "fst (is_file ''/tmp/missing.txt'' (world_of sample_fs)) \<noteq> Inr True"
    by (simp add: is_file_eq world_of_def)
  from copy_file_no_source [OF h] h show ?thesis by blast
qed

lemma in_directory_eq:
  "in_directory p w =
     (Inr (p \<noteq> [] \<and> dirname p \<noteq> [] \<and> fst (is_directory p w) = Inr False \<and>
           fst (is_directory (dirname p) w) = Inr True), w)"
proof (cases "p = [] \<or> dirname p = []")
  case True
  then show ?thesis by (auto simp: in_directory_def return_io_def Let_def)
next
  case False
  then show ?thesis
    by (simp add: in_directory_def Let_def bind_Inr [OF is_directory_eq] is_directory_eq
        return_io_def)
qed

lemma glob_first:
  "error_handler (glob_glob G) [PStr p] [] default_retries default_delay w =
     (Inr (Some (G p (env w))), w)"
proof -
  have "glob_glob G [PStr p] [] (env w) = (Inr (G p (env w)), env w)"
    by (simp add: glob_glob_def)
  from error_handler_first [where func = "glob_glob G", OF this] show ?thesis by simp
qed

text \<open>
  Claim C4. \<^verbatim>\<open>in_directory(p)\<close> holds iff \<open>p\<close> is not empty, its \<^verbatim>\<open>dirname\<close> is not
  empty, \<open>p\<close> is not a directory and its \<^verbatim>\<open>dirname\<close> is a directory.
  \<^verbatim>\<open>resolve_file_pattern(p)\<close> returns the matches of the glob in sorted order when
  \<^verbatim>\<open>in_directory(p)\<close> holds and the empty list otherwise, whatever the glob matches.
\<close>

theorem resolve_file_pattern_spec:
  "in_directory p w =
     (Inr (p \<noteq> [] \<and> dirname p \<noteq> [] \<and> fst (is_directory p w) = Inr False \<and>
           fst (is_directory (dirname p) w) = Inr True), w) \<and>
   resolve_file_pattern G p w =
     (Inr (if fst (in_directory p w) = Inr True then sort (G p (env w)) else []), w) \<and>
   sorted (sort (G p (env w))) \<and> mset (sort (G p (env w))) = mset (G p (env w))"
proof -
  have "resolve_file_pattern G p w =
     (Inr (if fst (in_directory p w) = Inr True then sort (G p (env w)) else []), w)"
    by (simp add: resolve_file_pattern_def bind_Inr [OF in_directory_eq] in_directory_eq
        bind_Inr [OF glob_first] return_io_def)
  then show ?thesis by (simp add: in_directory_eq)
qed

theorem resolve_file_pattern_spec_witness:
  "resolve_file_pattern (\<lambda>p fs. [''/tmp/b.png'', ''/tmp/a.png'']) ''/tmp/*.png''
     (world_of sample_fs) = (Inr [''/tmp/a.png'', ''/tmp/b.png''], world_of sample_fs) \<and>
   fst (in_directory ''/tmp/*.png'' (world_of sample_fs)) = Inr True \<and>
   resolve_file_pattern (\<lambda>p fs. [''/tmp/b.png'', ''/tmp/a.png'']) ''/nowhere/*.png''
     (world_of sample_fs) = (Inr [], world_of sample_fs) \<and>
   fst (in_directory ''/nowhere/*.png'' (world_of sample_fs)) = Inr False"
proof -
  let ?G = "\<lambda>(p :: string) (fs :: fsys). [''/tmp/b.png'', ''/tmp/a.png'']"
  have a: "fst (in_directory ''/tmp/*.png'' (world_of sample_fs)) = Inr True" by code_simp
  have b: "fst (in_directory ''/nowhere/*.png'' (world_of sample_fs)) = Inr False" by code_simp
  have s: "sort [''/tmp/b.png'', ''/tmp/a.png''] = [''/tmp/a.png'', ''/tmp/b.png'']" by code_simp
  from resolve_file_pattern_spec [of "''/tmp/*.png''" "world_of sample_fs" ?G]
    resolve_file_pattern_spec [of "''/nowhere/*.png''" "world_of sample_fs" ?G] a b s
  show ?thesis by simp
qed

lemma listdir_first:
  assumes "os_listdir [PStr d] [] (env w) = (Inr names, env w)"
  shows "error_handler os_listdir [PStr d] [] default_retries default_delay w =
           (Inr (Some names), w)"
  using error_handler_first [where func = os_listdir, OF assms] by simp

lemma listdir_of_directory:
  assumes "fst (is_directory d w) = Inr True"
  shows "\<exists>names. os_listdir [PStr d] [] (env w) = (Inr names, env w)"
proof -
  from assms have "is_dir_node (stat (env w) d)" by (simp add: is_directory_eq)
  then obtain es where "stat (env w) d = Some (Dir es)"
    by (auto simp: is_dir_node_def split: option.splits node.splits)
  then show ?thesis by (simp add: os_listdir_def)
qed

lemma hidden_entry:
  "startswith_any e [''.'', ''__''] \<longleftrightarrow> startswith e ''.'' \<or> startswith e ''__''"
  by (simp add: startswith_any_def)

lemma sorted_sample_entries: "sorted [''.git'', ''__pycache__'', ''a.txt'', ''b.txt'']"
  by simp

text \<open>
  Claim C7. \<^verbatim>\<open>resolve_file_paths(d)\<close> returns the empty list when \<open>d\<close> is not a
  directory. Otherwise \<^verbatim>\<open>os.listdir\<close> returns the entries of \<open>d\<close>, and the result is the
  sorted entries without those starting with \<^verbatim>\<open>.\<close> or \<^verbatim>\<open>__\<close>, each joined to \<open>d\<close>. For a
  directory holding \<^verbatim>\<open>.git\<close>, \<^verbatim>\<open>__pycache__\<close>, \<^verbatim>\<open>a.txt\<close> and \<^verbatim>\<open>b.txt\<close> in any order, and a
  \<open>d\<close> without a trailing separator, the result is \<^verbatim>\<open>d/a.txt\<close>, \<^verbatim>\<open>d/b.txt\<close>.
\<close>

theorem resolve_file_paths_spec:
  "(fst (is_directory d w) \<noteq> Inr True \<longrightarrow> resolve_file_paths d w = (Inr [], w)) \<and>
   (fst (is_directory d w) = Inr True \<longrightarrow>
      (\<exists>names. os_listdir [PStr d] [] (env w) = (Inr names, env w))) \<and>
   (\<forall>names. fst (is_directory d w) = Inr True \<and>
        os_listdir [PStr d] [] (env w) = (Inr names, env w) \<longrightarrow>
        resolve_file_paths d w =
          (Inr (map (os_path_join d)
                 (filter (\<lambda>e. \<not> startswith e ''.'' \<and> \<not> startswith e ''__'') (sort names))), w) \<and>
        sorted (filter (\<lambda>e. \<not> startswith e ''.'' \<and> \<not> startswith e ''__'') (sort names)) \<and>
        (mset names = mset [''.git'', ''__pycache__'', ''a.txt'', ''b.txt''] \<and> \<not> endswith d ''/''
           \<longrightarrow> resolve_file_paths d w = (Inr [d @ ''/a.txt'', d @ ''/b.txt''], w)))"
proof (intro conjI impI allI)
  assume "fst (is_directory d w) \<noteq> Inr True"
  then have "is_directory d w = (Inr False, w)" by (simp add: is_directory_eq)
  then show "resolve_file_paths d w = (Inr [], w)"
    by (simp add: resolve_file_paths_def bind_io_def return_io_def)
next
  assume "fst (is_directory d w) = Inr True"
  then show "\<exists>names. os_listdir [PStr d] [] (env w) = (Inr names, env w)"
    by (rule listdir_of_directory)
next
  fix names
  assume h: "fst (is_directory d w) = Inr True \<and>
             os_listdir [PStr d] [] (env w) = (Inr names, env w)"
  then have dir: "is_directory d w = (Inr True, w)" by (simp add: is_directory_eq)
  from h have ls: "error_handler os_listdir [PStr d] [] default_retries default_delay w =
           (Inr (Some names), w)" by (simp add: listdir_first)
  show run: "resolve_file_paths d w =
          (Inr (map (os_path_join d)
                 (filter (\<lambda>e. \<not> startswith e ''.'' \<and> \<not> startswith e ''__'') (sort names))), w)"
    by (simp add: resolve_file_paths_def bind_io_def dir ls return_io_def hidden_entry)
  show "sorted (filter (\<lambda>e. \<not> startswith e ''.'' \<and> \<not> startswith e ''__'') (sort names))"
    by (simp add: sorted_wrt_filter)
  assume ex: "mset names = mset [''.git'', ''__pycache__'', ''a.txt'', ''b.txt''] \<and>
              \<not> endswith d ''/''"
  from h have ne: "d \<noteq> []" by (auto simp: is_directory_eq)
  have "mset [''.git'', ''__pycache__'', ''a.txt'', ''b.txt''] = mset names" using ex by simp
  then have srt: "sort names = [''.git'', ''__pycache__'', ''a.txt'', ''b.txt'']"
    using sorted_sample_entries by (rule properties_for_sort)
  have flt: "filter (\<lambda>e. \<not> startswith e ''.'' \<and> \<not> startswith e ''__'')
               [''.git'', ''__pycache__'', ''a.txt'', ''b.txt''] = [''a.txt'', ''b.txt'']"
    by (simp add: startswith_def)
  have jn: "os_path_join d ''a.txt'' = d @ ''/a.txt''" "os_path_join d ''b.txt'' = d @ ''/b.txt''"
    using ne ex by (simp_all add: os_path_join_def startswith_def)
  show "resolve_file_paths d w = (Inr [d @ ''/a.txt'', d @ ''/b.txt''], w)"
    by (simp only: run srt flt list.map jn)
qed

theorem resolve_file_paths_spec_witness:
  "fst (is_directory ''/repo'' (world_of sample_fs)) = Inr True \<and>
   os_listdir [PStr ''/repo''] [] (env (world_of sample_fs)) =
     (Inr [''b.txt'', ''.git'', ''a.txt'', ''__pycache__''], env (world_of sample_fs)) \<and>
   mset [''b.txt'', ''.git'', ''a.txt'', ''__pycache__''] =
     mset [''.git'', ''__pycache__'', ''a.txt'', ''b.txt''] \<and>
   \<not> endswith ''/repo'' ''/'' \<and>
   resolve_file_paths ''/repo'' (world_of sample_fs) =
     (Inr [''/repo/a.txt'', ''/repo/b.txt''], world_of sample_fs) \<and>
   fst (is_directory ''/f'' (world_of sample_fs)) \<noteq> Inr True \<and>
   resolve_file_paths ''/f'' (world_of sample_fs) = (Inr [], world_of sample_fs)"
proof -
  have a: "fst (is_directory ''/repo'' (world_of sample_fs)) = Inr True" by code_simp
  have b: "os_listdir [PStr ''/repo''] [] (env (world_of sample_fs)) =
     (Inr [''b.txt'', ''.git'', ''a.txt'', ''__pycache__''], env (world_of sample_fs))"
    by code_simp
  have c: "mset [''b.txt'', ''.git'', ''a.txt'', ''__pycache__''] =
     mset [''.git'', ''__pycache__'', ''a.txt'', ''b.txt'']" by simp
  have d: "\<not> endswith ''/repo'' ''/''" by (simp add: endswith_def)
  have e: "fst (is_directory ''/f'' (world_of sample_fs)) \<noteq> Inr True" by code_simp
  from resolve_file_paths_spec [of "''/repo''" "world_of sample_fs"] a b c d
  have "resolve_file_paths ''/repo'' (world_of sample_fs) =
     (Inr [''/repo'' @ ''/a.txt'', ''/repo'' @ ''/b.txt''], world_of sample_fs)"
    by blast
  then have f: "resolve_file_paths ''/repo'' (world_of sample_fs) =
     (Inr [''/repo/a.txt'', ''/repo/b.txt''], world_of sample_fs)" by simp
  from resolve_file_paths_spec [of "''/f''" "world_of sample_fs"] e
  have g: "resolve_file_paths ''/f'' (world_of sample_fs) = (Inr [], world_of sample_fs)"
    by blast
  from a b c d e f g show ?thesis by blast
qed


section \<open>Creating directories\<close>






























end
